theory Spec2Isabelle
  imports Main "HOL-Library.Word"
begin

unbundle bit_operations_syntax

section \<open>The wrapped OPC UA client library, as data and parameters\<close>

text \<open>
  The examples delegate the protocol to the external client library. Its values are
  modelled as data; its functions are parameters of every definition below, so each
  theorem holds for every behaviour of the library. The format strings of the source are
  Chinese text; they are written here as English glosses with the same verbs.
\<close>

text \<open>\<open>*opcua.Client\<close> that is not nil: an opaque handle.\<close>

datatype client = ClientHandle nat

text \<open>
  \<open>context.Context\<close>: the background context, or the one
  \<open>context.WithCancel\<close> made for the manager. Whether that one is done is
  state of the manager, below.
\<close>

datatype "context" = Background | WithCancel

text \<open>\<open>time.Duration\<close> counts nanoseconds.\<close>

type_synonym duration = int

definition Millisecond :: duration where
  "Millisecond = 1000000"

definition Second :: duration where
  "Second = 1000 * Millisecond"

text \<open>\<open>opcua.Option\<close>: the configuration options the examples build.\<close>

datatype client_option =
    opcua_SecurityPolicy string
  | opcua_SecurityModeString string
  | opcua_LocalAddr string
  | opcua_AutoReconnect bool
  | opcua_ReconnectInterval duration
  | opcua_DialTimeout duration

definition SecurityPolicyURINone :: string where
  "SecurityPolicyURINone = ''http://opcfoundation.org/UA/SecurityPolicy#None''"

text \<open>\<open>ua.StatusCode\<close> is a \<open>uint32\<close>; \<open>ua.StatusOK\<close> is zero.\<close>

type_synonym StatusCode = "32 word"

definition StatusOK :: StatusCode where
  "StatusOK = 0"

datatype NodeID = NumericNodeID "16 word" "32 word" | ParsedNodeID string

definition NewNumericNodeID :: "16 word \<Rightarrow> 32 word \<Rightarrow> NodeID" where
  "NewNumericNodeID ns i = NumericNodeID ns i"

datatype TimestampsToReturn =
    TimestampsToReturnSource
  | TimestampsToReturnServer
  | TimestampsToReturnBoth
  | TimestampsToReturnNeither

record ReadValueID =
  NodeID :: NodeID

record ReadRequest =
  MaxAge :: int
  NodesToRead :: "ReadValueID list"
  TimestampsToReturn :: TimestampsToReturn

text \<open>The contents of a \<open>*ua.Variant\<close>, as \<open>Value()\<close> hands them out.\<close>

datatype variant = VariantValue string string

record DataValue =
  Value :: variant
  Status :: StatusCode
  SourceTimestamp :: int
  ServerTimestamp :: int

record ReadResponse =
  Results :: "DataValue list"

text \<open>
  Errors are values. \<open>LibError\<close> is an error made by the library or the operating
  system; \<open>Errorf\<close> is \<open>fmt.Errorf\<close> with the format and its arguments.
\<close>

datatype error = LibError string | Errorf string "arg list"
  and arg = AErr error | AStr string | AStatus StatusCode | AVariant variant | ATime int

text \<open>
  The library calls. Each takes the state of the outside world (servers, network,
  operating system) and returns it changed, so two calls with the same arguments may
  answer differently. The library's contract is taken as given: a call returns, a
  receiver is a client that is not nil, and a call that returns a nil error returns a
  usable value (a client, or a response whose results are not nil pointers). So the result
  is a sum, \<open>Inl\<close> the error.
\<close>

record 'w opcua_lib =
  NewClient :: "string \<Rightarrow> client_option list \<Rightarrow> 'w \<Rightarrow> (error + client) \<times> 'w"
  Client_Connect :: "client \<Rightarrow> context \<Rightarrow> 'w \<Rightarrow> error option \<times> 'w"
  Client_Read :: "client \<Rightarrow> context \<Rightarrow> ReadRequest \<Rightarrow> 'w \<Rightarrow> (error + ReadResponse) \<times> 'w"
  Client_Close :: "client \<Rightarrow> context \<Rightarrow> 'w \<Rightarrow> error option \<times> 'w"
  ParseNodeID :: "string \<Rightarrow> error + NodeID"

section \<open>Effects\<close>

text \<open>
  What a function does besides returning is appended to a trace, in program order: the
  library calls with their arguments, the lines printed and logged, the operations on
  a device's mutex, and the reads and writes of the three fields the mutex protects. A
  device is named by its position in the manager's list, which is the only place a
  pointer to it is kept.
\<close>

datatype field = FClient | FConnected | FLastError

datatype event =
    EvNewClient string "client_option list"
  | EvConnect client "context"
  | EvRead client "context" ReadRequest
  | EvClose client "context"
  | EvPrintf string "arg list"
  | EvLogPrintf string "arg list"
  | EvLogFatalf string "arg list"
  | EvLock nat
  | EvUnlock nat
  | EvRLock nat
  | EvRUnlock nat
  | EvRd nat field
  | EvWr nat field
  | EvCancel
  | EvWgAdd
  | EvWgDone
  | EvWgWait
  | EvGo nat
  | EvTickerStop

record 'w st =
  world :: 'w
  trace :: "event list"

definition emit :: "event \<Rightarrow> 'w st \<Rightarrow> 'w st" where
  "emit e s = s\<lparr>trace := trace s @ [e]\<rparr>"

definition emits :: "event list \<Rightarrow> 'w st \<Rightarrow> 'w st" where
  "emits es s = s\<lparr>trace := trace s @ es\<rparr>"

definition call :: "('w \<Rightarrow> 'a \<times> 'w) \<Rightarrow> 'w st \<Rightarrow> 'a \<times> 'w st" where
  "call f s = (case f (world s) of (r, w') \<Rightarrow> (r, s\<lparr>world := w'\<rparr>))"

section \<open>The two-device example: \<open>multi-interface.go\<close>\<close>

text \<open>
  \<open>connectWithLocalAddr\<close> returns Go's pair \<open>(*opcua.Client, error)\<close>: a component
  that is \<open>None\<close> is nil.
\<close>

definition connectWithLocalAddr_opts :: "string \<Rightarrow> client_option list" where
  "connectWithLocalAddr_opts localAddr =
     [opcua_SecurityPolicy SecurityPolicyURINone,
      opcua_SecurityModeString ''None'',
      opcua_LocalAddr localAddr,
      opcua_AutoReconnect True,
      opcua_ReconnectInterval (5 * Second)]"

definition connectWithLocalAddr ::
  "'w opcua_lib \<Rightarrow> context \<Rightarrow> string \<Rightarrow> string \<Rightarrow> 'w st \<Rightarrow> (client option \<times> error option) \<times> 'w st" where
  "connectWithLocalAddr lib cx endpoint localAddr s =
     (let opts = connectWithLocalAddr_opts localAddr in
      case call (NewClient lib endpoint opts) (emit (EvNewClient endpoint opts) s) of
        (Inl err, s1) \<Rightarrow> ((None, Some (Errorf ''create client failed: %v'' [AErr err])), s1)
      | (Inr c, s1) \<Rightarrow>
          (case call (Client_Connect lib c cx) (emit (EvConnect c cx) s1) of
             (Some err, s2) \<Rightarrow>
               ((None, Some (Errorf ''connect to server failed: %v'' [AErr err])), s2)
           | (None, s2) \<Rightarrow>
               ((Some c, None),
                emit (EvPrintf ''connected to %s (local address: %s)'' [AStr endpoint, AStr localAddr]) s2)))"

definition readNodeValue_req :: "NodeID \<Rightarrow> ReadRequest" where
  "readNodeValue_req nid =
     \<lparr>MaxAge = 2000,
      NodesToRead = [\<lparr>NodeID = nid\<rparr>],
      TimestampsToReturn = TimestampsToReturnBoth\<rparr>"

definition readNodeValue ::
  "'w opcua_lib \<Rightarrow> context \<Rightarrow> client \<Rightarrow> string \<Rightarrow> string \<Rightarrow> 'w st \<Rightarrow> error option \<times> 'w st" where
  "readNodeValue lib cx c nodeIDStr deviceName s =
     (case ParseNodeID lib nodeIDStr of
        Inl err \<Rightarrow> (Some (Errorf ''parse node ID failed: %v'' [AErr err]), s)
      | Inr nid \<Rightarrow>
          (let req = readNodeValue_req nid in
           case call (Client_Read lib c cx req) (emit (EvRead c cx req) s) of
             (Inl err, s1) \<Rightarrow> (Some (Errorf ''read request failed: %v'' [AErr err]), s1)
           | (Inr resp, s1) \<Rightarrow>
               (case Results resp of
                  [] \<Rightarrow> (Some (Errorf ''no read result'' []), s1)
                | result # _ \<Rightarrow>
                    if Status result \<noteq> StatusOK
                    then (Some (Errorf ''read status error: %v'' [AStatus (Status result)]), s1)
                    else (None,
                          emits
                            [EvPrintf ''%s - value of node %s: %v (type: %T)''
                               [AStr deviceName, AStr nodeIDStr,
                                AVariant (Value result), AVariant (Value result)],
                             EvPrintf ''%s - server timestamp: %v''
                               [AStr deviceName, ATime (ServerTimestamp result)],
                             EvPrintf ''%s - source timestamp: %v''
                               [AStr deviceName, ATime (SourceTimestamp result)]]
                            s1))))"





section \<open>The connection manager: the advanced example\<close>

text \<open>
  \<open>DeviceConnection\<close>. A nil \<open>Client\<close> or \<open>LastError\<close> is \<open>None\<close>. The
  field \<open>mu\<close> has no value of its own here: what is done to it is in the trace.
\<close>

record DeviceConnection =
  Name :: string
  Endpoint :: string
  LocalAddr :: string
  Client :: "client option"
  Connected :: bool
  LastError :: "error option"

text \<open>
  \<open>MultiInterfaceManager\<close>. \<open>devices\<close> holds the devices themselves: a pointer
  to a device is made in \<open>AddDevice\<close> only and kept in this slice only, so the
  position in the list stands for it. \<open>ctx_done\<close> is the state that \<open>ctx\<close> and
  \<open>cancel\<close> share; \<open>wg\<close> is the counter of the \<open>sync.WaitGroup\<close>.
\<close>

record MultiInterfaceManager =
  devices :: "DeviceConnection list"
  ctx :: "context"
  ctx_done :: bool
  wg :: int

definition NewMultiInterfaceManager :: MultiInterfaceManager where
  "NewMultiInterfaceManager = \<lparr>devices = [], ctx = WithCancel, ctx_done = False, wg = 0\<rparr>"

definition cancel :: "MultiInterfaceManager \<Rightarrow> MultiInterfaceManager" where
  "cancel m = m\<lparr>ctx_done := True\<rparr>"

definition AddDevice :: "MultiInterfaceManager \<Rightarrow> string \<Rightarrow> string \<Rightarrow> string \<Rightarrow> MultiInterfaceManager" where
  "AddDevice m name endpoint localAddr =
     (let device = \<lparr>Name = name, Endpoint = endpoint, LocalAddr = localAddr,
                     Client = None, Connected = False, LastError = None\<rparr>
      in m\<lparr>devices := devices m @ [device]\<rparr>)"

definition connectDevice_opts :: "DeviceConnection \<Rightarrow> client_option list" where
  "connectDevice_opts device =
     [opcua_SecurityPolicy SecurityPolicyURINone,
      opcua_SecurityModeString ''None'',
      opcua_LocalAddr (LocalAddr device),
      opcua_AutoReconnect True,
      opcua_ReconnectInterval (5 * Second),
      opcua_DialTimeout (10 * Second)]"

text \<open>
  \<open>connectDevice\<close> on the device at position \<open>p\<close>: the returned error and the
  device as the call leaves it.
\<close>

definition connectDevice ::
  "'w opcua_lib \<Rightarrow> MultiInterfaceManager \<Rightarrow> nat \<Rightarrow> DeviceConnection \<Rightarrow> 'w st
     \<Rightarrow> (error option \<times> DeviceConnection) \<times> 'w st" where
  "connectDevice lib m p device s =
     (let opts = connectDevice_opts device in
      case call (NewClient lib (Endpoint device) opts) (emit (EvNewClient (Endpoint device) opts) s) of
        (Inl err, s1) \<Rightarrow> ((Some (Errorf ''create client failed: %v'' [AErr err]), device), s1)
      | (Inr c, s1) \<Rightarrow>
          (case call (Client_Connect lib c (ctx m)) (emit (EvConnect c (ctx m)) s1) of
             (Some err, s2) \<Rightarrow> ((Some (Errorf ''connect failed: %v'' [AErr err]), device), s2)
           | (None, s2) \<Rightarrow>
               ((None, device\<lparr>Client := Some c, Connected := True, LastError := None\<rparr>),
                emit (EvPrintf ''device %s connected through %s to %s''
                        [AStr (Name device), AStr (LocalAddr device), AStr (Endpoint device)])
                  (emits [EvLock p, EvWr p FClient, EvWr p FConnected, EvWr p FLastError, EvUnlock p]
                     s2))))"

definition setError :: "nat \<Rightarrow> DeviceConnection \<Rightarrow> error option \<Rightarrow> 'w st \<Rightarrow> DeviceConnection \<times> 'w st" where
  "setError p d err s =
     (d\<lparr>Connected := False, LastError := err\<rparr>,
      emits [EvLock p, EvWr p FConnected, EvWr p FLastError, EvUnlock p] s)"

definition IsConnected :: "nat \<Rightarrow> DeviceConnection \<Rightarrow> 'w st \<Rightarrow> bool \<times> 'w st" where
  "IsConnected p d s = (Connected d, emits [EvRLock p, EvRd p FConnected, EvRUnlock p] s)"

definition GetClient :: "nat \<Rightarrow> DeviceConnection \<Rightarrow> 'w st \<Rightarrow> client option \<times> 'w st" where
  "GetClient p d s = (Client d, emits [EvRLock p, EvRd p FClient, EvRUnlock p] s)"

text \<open>
  The body of the loop of \<open>ConnectAll\<close>, for the device at position \<open>p\<close>: the
  device as the pass leaves it.
\<close>

definition ConnectAll_body ::
  "'w opcua_lib \<Rightarrow> MultiInterfaceManager \<Rightarrow> nat \<Rightarrow> DeviceConnection \<Rightarrow> 'w st \<Rightarrow> DeviceConnection \<times> 'w st" where
  "ConnectAll_body lib m p device s =
     (case connectDevice lib m p device s of
        ((Some err, device1), s1) \<Rightarrow>
          setError p device1 (Some err)
            (emit (EvLogPrintf ''connecting device %s failed: %v'' [AStr (Name device1), AErr err]) s1)
      | ((None, device1), s1) \<Rightarrow> (device1, s1))"

text \<open>The loop over \<open>m.devices\<close>, from position \<open>p\<close> on.\<close>

fun ConnectAll_loop ::
  "'w opcua_lib \<Rightarrow> MultiInterfaceManager \<Rightarrow> nat \<Rightarrow> DeviceConnection list \<Rightarrow> 'w st
     \<Rightarrow> DeviceConnection list \<times> 'w st" where
  "ConnectAll_loop lib m p [] s = ([], s)"
| "ConnectAll_loop lib m p (device # rest) s =
     (case ConnectAll_body lib m p device s of
        (device1, s1) \<Rightarrow>
          (case ConnectAll_loop lib m (Suc p) rest s1 of
             (rest1, s2) \<Rightarrow> (device1 # rest1, s2)))"

definition ConnectAll ::
  "'w opcua_lib \<Rightarrow> MultiInterfaceManager \<Rightarrow> 'w st \<Rightarrow> (error option \<times> MultiInterfaceManager) \<times> 'w st" where
  "ConnectAll lib m s =
     (case ConnectAll_loop lib m 0 (devices m) s of
        (ds, s') \<Rightarrow> ((None, m\<lparr>devices := ds\<rparr>), s'))"

definition healthCheck_req :: ReadRequest where
  "healthCheck_req =
     \<lparr>MaxAge = 0,
      NodesToRead = [\<lparr>NodeID = NewNumericNodeID 0 2256\<rparr>],
      TimestampsToReturn = TimestampsToReturnSource\<rparr>"

definition healthCheck ::
  "'w opcua_lib \<Rightarrow> MultiInterfaceManager \<Rightarrow> client \<Rightarrow> string \<Rightarrow> 'w st \<Rightarrow> error option \<times> 'w st" where
  "healthCheck lib m c deviceName s =
     (let req = healthCheck_req in
      case call (Client_Read lib c (ctx m) req) (emit (EvRead c (ctx m) req) s) of
        (Inl err, s1) \<Rightarrow> (Some err, s1)
      | (Inr resp, s1) \<Rightarrow>
          (case Results resp of
             [] \<Rightarrow> (Some (Errorf ''reading the server status failed'' []), s1)
           | r # _ \<Rightarrow>
               if Status r \<noteq> StatusOK
               then (Some (Errorf ''reading the server status failed'' []), s1)
               else (None, emit (EvPrintf ''device %s health check passed'' [AStr deviceName]) s1)))"

text \<open>
  One pass through the \<open>case <-ticker.C\<close> branch of \<open>monitorDevice\<close>, for the
  device at position \<open>p\<close>. \<open>IsConnected\<close> and \<open>GetClient\<close> take the read lock
  one after the other, and another goroutine may write the device in between: \<open>d1\<close> is
  the device as the first finds it, \<open>d2\<close> as the second does.
\<close>

definition monitorDevice_tick ::
  "'w opcua_lib \<Rightarrow> MultiInterfaceManager \<Rightarrow> nat \<Rightarrow> DeviceConnection \<Rightarrow> DeviceConnection \<Rightarrow> 'w st \<Rightarrow> 'w st" where
  "monitorDevice_tick lib m p d1 d2 s =
     (case IsConnected p d1 s of
        (False, s1) \<Rightarrow> s1
      | (True, s1) \<Rightarrow>
          (case GetClient p d2 s1 of
             (None, s2) \<Rightarrow> s2
           | (Some c, s2) \<Rightarrow>
               (case healthCheck lib m c (Name d2) s2 of
                  (Some err, s3) \<Rightarrow>
                    emit (EvLogPrintf ''device %s health check failed: %v'' [AStr (Name d2), AErr err]) s3
                | (None, s3) \<Rightarrow> s3)))"

text \<open>
  What happens to the goroutine of \<open>monitorDevice\<close> while it runs: another goroutine
  cancels the manager's context, or its \<open>select\<close> takes one of its two cases.
\<close>

datatype monitor_input =
    Cancelled_by_other
  | Select_CtxDone
  | Select_TickerC DeviceConnection DeviceConnection

text \<open>
  \<open>monitorDevice\<close> over the inputs of a run. The loop has no exit but the
  \<open>ctx.Done\<close> case, so a run is a prefix of an unbounded one: the result is
  \<open>Some (True, s)\<close> when the function has returned (the deferred \<open>ticker.Stop\<close> and
  \<open>wg.Done\<close> have run, in that order), \<open>Some (False, s)\<close> when it is back in
  \<open>select\<close> with the inputs used up, and \<open>None\<close> when the inputs cannot happen: a
  context that nobody cancelled is not done.
\<close>

fun monitorDevice_loop ::
  "'w opcua_lib \<Rightarrow> MultiInterfaceManager \<Rightarrow> nat \<Rightarrow> monitor_input list \<Rightarrow> 'w st \<Rightarrow> (bool \<times> 'w st) option" where
  "monitorDevice_loop lib m p [] s = Some (False, s)"
| "monitorDevice_loop lib m p (Cancelled_by_other # ins) s =
     monitorDevice_loop lib (cancel m) p ins s"
| "monitorDevice_loop lib m p (Select_CtxDone # ins) s =
     (if ctx_done m then Some (True, emits [EvTickerStop, EvWgDone] s) else None)"
| "monitorDevice_loop lib m p (Select_TickerC d1 d2 # ins) s =
     monitorDevice_loop lib m p ins (monitorDevice_tick lib m p d1 d2 s)"

definition monitorDevice ::
  "'w opcua_lib \<Rightarrow> MultiInterfaceManager \<Rightarrow> nat \<Rightarrow> monitor_input list \<Rightarrow> 'w st \<Rightarrow> (bool \<times> 'w st) option" where
  "monitorDevice lib m p ins s = monitorDevice_loop lib m p ins s"

text \<open>
  \<open>Close\<close>, after \<open>m.cancel()\<close> and \<open>m.wg.Wait()\<close>: the body of its loop for the
  device at position \<open>p\<close>. The field \<open>Client\<close> is read for the nil test and again
  for the call, with no lock taken.
\<close>

definition Close_device :: "'w opcua_lib \<Rightarrow> nat \<Rightarrow> DeviceConnection \<Rightarrow> 'w st \<Rightarrow> 'w st" where
  "Close_device lib p device s =
     (case Client device of
        None \<Rightarrow> emit (EvRd p FClient) s
      | Some c \<Rightarrow>
          snd (call (Client_Close lib c Background)
                 (emits [EvRd p FClient, EvRd p FClient, EvClose c Background] s)))"

fun Close_loop :: "'w opcua_lib \<Rightarrow> nat \<Rightarrow> DeviceConnection list \<Rightarrow> 'w st \<Rightarrow> 'w st" where
  "Close_loop lib p [] s = s"
| "Close_loop lib p (device # rest) s = Close_loop lib (Suc p) rest (Close_device lib p device s)"

text \<open>
  \<open>Close\<close> run with no other goroutine at work: \<open>wg.Wait\<close> returns when the counter
  is zero, and blocks for ever otherwise (\<open>None\<close>).
\<close>

definition Close :: "'w opcua_lib \<Rightarrow> MultiInterfaceManager \<Rightarrow> 'w st \<Rightarrow> (MultiInterfaceManager \<times> 'w st) option" where
  "Close lib m s =
     (let m1 = cancel m; s1 = emit EvCancel s in
      if wg m1 = 0
      then Some (m1, Close_loop lib 0 (devices m1) (emit EvWgWait s1))
      else None)"

subsection \<open>The manager with its goroutines\<close>



text \<open>Where a goroutine of \<open>monitorDevice\<close> stands.\<close>

datatype goroutine_pc =
    Spawned
  | InSelect
  | TickerStopPending
  | WgDonePending
  | Finished










subsection \<open>\<open>GetAvailableInterfaces\<close>\<close>

text \<open>
  Package \<open>net\<close> of the standard library. An \<open>IP\<close> is a slice of bytes. A
  \<open>net.Addr\<close> is an interface value: \<open>*net.IPNet\<close>, or some other type of
  address. \<open>Flags\<close> is an unsigned machine word with \<open>FlagUp\<close> its lowest bit.
  \<open>Addrs\<close> holds what the call \<open>iface.Addrs()\<close> answers for this interface; the
  loop makes the call at most once for each.
\<close>

type_synonym IP = "8 word list"

datatype Addr = IPNet IP IP | IPAddr IP string | OtherAddr string

type_synonym Flags = "64 word"

definition FlagUp :: Flags where
  "FlagUp = 1"

record Interface =
  Index :: int
  IfName :: string
  Flags :: Flags
  Addrs :: "error + Addr list"

text \<open>
  What the operating system and package \<open>net\<close> answer: the result of
  \<open>net.Interfaces()\<close>, and the methods \<open>IsLoopback\<close>, \<open>To4\<close> (nil is \<open>None\<close>)
  and \<open>String\<close> of \<open>net.IP\<close>.
\<close>

record net_pkg =
  Interfaces :: "error + Interface list"
  IsLoopback :: "IP \<Rightarrow> bool"
  To4 :: "IP \<Rightarrow> IP option"
  IP_String :: "IP \<Rightarrow> string"

text \<open>The inner loop, over the addresses of one interface; \<open>result\<close> is appended to.\<close>

fun GetAvailableInterfaces_addrs :: "net_pkg \<Rightarrow> Addr list \<Rightarrow> string list \<Rightarrow> string list" where
  "GetAvailableInterfaces_addrs net [] result = result"
| "GetAvailableInterfaces_addrs net (addr # rest) result =
     GetAvailableInterfaces_addrs net rest
       (case addr of
          IPNet ip ipmask \<Rightarrow>
            if \<not> IsLoopback net ip
            then (if To4 net ip \<noteq> None then result @ [IP_String net ip] else result)
            else result
        | _ \<Rightarrow> result)"

text \<open>The outer loop, over the interfaces.\<close>

fun GetAvailableInterfaces_loop :: "net_pkg \<Rightarrow> Interface list \<Rightarrow> string list \<Rightarrow> string list" where
  "GetAvailableInterfaces_loop net [] result = result"
| "GetAvailableInterfaces_loop net (iface # rest) result =
     (if Flags iface AND FlagUp = 0
      then GetAvailableInterfaces_loop net rest result
      else case Addrs iface of
             Inl err \<Rightarrow> GetAvailableInterfaces_loop net rest result
           | Inr addrs \<Rightarrow>
               GetAvailableInterfaces_loop net rest (GetAvailableInterfaces_addrs net addrs result))"

text \<open>Go's pair \<open>([]string, error)\<close>; the nil slice is the empty list.\<close>

definition GetAvailableInterfaces :: "net_pkg \<Rightarrow> string list \<times> error option" where
  "GetAvailableInterfaces net =
     (case Interfaces net of
        Inl err \<Rightarrow> ([], Some err)
      | Inr interfaces \<Rightarrow> (GetAvailableInterfaces_loop net interfaces [], None))"

section \<open>Notions the properties are stated with\<close>

definition is_EvNewClient :: "event \<Rightarrow> bool" where
  "is_EvNewClient e = (case e of EvNewClient _ _ \<Rightarrow> True | _ \<Rightarrow> False)"

definition is_EvRead :: "event \<Rightarrow> bool" where
  "is_EvRead e = (case e of EvRead _ _ _ \<Rightarrow> True | _ \<Rightarrow> False)"

definition is_EvClose :: "event \<Rightarrow> bool" where
  "is_EvClose e = (case e of EvClose _ _ \<Rightarrow> True | _ \<Rightarrow> False)"

text \<open>The calls into the client library, among the events.\<close>

definition is_lib_call :: "event \<Rightarrow> bool" where
  "is_lib_call e =
     (case e of
        EvNewClient _ _ \<Rightarrow> True
      | EvConnect _ _ \<Rightarrow> True
      | EvRead _ _ _ \<Rightarrow> True
      | EvClose _ _ \<Rightarrow> True
      | _ \<Rightarrow> False)"

text \<open>
  The lock discipline of one goroutine, read off the events it makes: \<open>held p\<close> is how
  the goroutine holds the mutex of device \<open>p\<close>. A write of a protected field needs the
  write lock, a read needs the read lock or the write lock.
\<close>

datatype lock_state = Unheld | ReadHeld | WriteHeld

fun guarded :: "(nat \<Rightarrow> lock_state) \<Rightarrow> event list \<Rightarrow> bool" where
  "guarded held [] = True"
| "guarded held (EvLock p # es) = guarded (held(p := WriteHeld)) es"
| "guarded held (EvUnlock p # es) = guarded (held(p := Unheld)) es"
| "guarded held (EvRLock p # es) = guarded (held(p := ReadHeld)) es"
| "guarded held (EvRUnlock p # es) = guarded (held(p := Unheld)) es"
| "guarded held (EvRd p f # es) = (held p \<noteq> Unheld \<and> guarded held es)"
| "guarded held (EvWr p f # es) = (held p = WriteHeld \<and> guarded held es)"
| "guarded held (_ # es) = guarded held es"

text \<open>How the goroutine holds the mutexes after the events.\<close>

fun locks_after :: "(nat \<Rightarrow> lock_state) \<Rightarrow> event list \<Rightarrow> (nat \<Rightarrow> lock_state)" where
  "locks_after held [] = held"
| "locks_after held (EvLock p # es) = locks_after (held(p := WriteHeld)) es"
| "locks_after held (EvUnlock p # es) = locks_after (held(p := Unheld)) es"
| "locks_after held (EvRLock p # es) = locks_after (held(p := ReadHeld)) es"
| "locks_after held (EvRUnlock p # es) = locks_after (held(p := Unheld)) es"
| "locks_after held (_ # es) = locks_after held es"

definition no_lock :: "nat \<Rightarrow> lock_state" where
  "no_lock = (\<lambda>p. Unheld)"

text \<open>
  Events that start with no mutex held, make every access to a protected field under its
  lock, and end with no mutex held.
\<close>

definition well_locked :: "event list \<Rightarrow> bool" where
  "well_locked es = (guarded no_lock es \<and> locks_after no_lock es = no_lock)"

text \<open>The accesses that \<open>Close\<close> makes with no lock: reads of \<open>Client\<close>.\<close>

definition is_Client_read :: "event \<Rightarrow> bool" where
  "is_Client_read e = (case e of EvRd _ FClient \<Rightarrow> True | _ \<Rightarrow> False)"

definition is_field_access :: "event \<Rightarrow> bool" where
  "is_field_access e = (case e of EvRd _ _ \<Rightarrow> True | EvWr _ _ \<Rightarrow> True | _ \<Rightarrow> False)"

text \<open>The invariant of a device.\<close>

definition device_inv :: "DeviceConnection \<Rightarrow> bool" where
  "device_inv d = (Connected d \<longrightarrow> Client d \<noteq> None \<and> LastError d = None)"

text \<open>
  The ways the manager touches its devices, each on the device at a position of the
  list; a position outside the list names no device, and nothing happens.
\<close>

datatype manager_op =
    Op_AddDevice string string string
  | Op_ConnectAll
  | Op_connectDevice nat
  | Op_setError nat "error option"
  | Op_monitorDevice_tick nat

fun apply_op :: "'w opcua_lib \<Rightarrow> MultiInterfaceManager \<times> 'w st \<Rightarrow> manager_op \<Rightarrow> MultiInterfaceManager \<times> 'w st" where
  "apply_op lib (m, s) (Op_AddDevice name endpoint localAddr) = (AddDevice m name endpoint localAddr, s)"
| "apply_op lib (m, s) Op_ConnectAll =
     (case ConnectAll lib m s of ((_, m'), s') \<Rightarrow> (m', s'))"
| "apply_op lib (m, s) (Op_connectDevice p) =
     (if p < length (devices m)
      then (case connectDevice lib m p (devices m ! p) s of
              ((_, d), s') \<Rightarrow> (m\<lparr>devices := (devices m)[p := d]\<rparr>, s'))
      else (m, s))"
| "apply_op lib (m, s) (Op_setError p err) =
     (if p < length (devices m)
      then (case setError p (devices m ! p) err s of
              (d, s') \<Rightarrow> (m\<lparr>devices := (devices m)[p := d]\<rparr>, s'))
      else (m, s))"
| "apply_op lib (m, s) (Op_monitorDevice_tick p) =
     (if p < length (devices m)
      then (m, monitorDevice_tick lib m p (devices m ! p) (devices m ! p) s)
      else (m, s))"

definition apply_ops :: "'w opcua_lib \<Rightarrow> MultiInterfaceManager \<times> 'w st \<Rightarrow> manager_op list \<Rightarrow> MultiInterfaceManager \<times> 'w st" where
  "apply_ops lib ms ops = foldl (apply_op lib) ms ops"


text \<open>The goroutines of \<open>monitorDevice\<close> that have not finished, counted.\<close>

definition unfinished :: "(nat \<times> goroutine_pc) list \<Rightarrow> nat" where
  "unfinished gs = length (filter (\<lambda>g. snd g \<noteq> Finished) gs)"

text \<open>The events of \<open>Close\<close> itself: the cancelling, the return of the wait, a client closed.\<close>

definition is_shutdown_event :: "event \<Rightarrow> bool" where
  "is_shutdown_event e =
     (case e of EvCancel \<Rightarrow> True | EvWgWait \<Rightarrow> True | EvClose _ _ \<Rightarrow> True | _ \<Rightarrow> False)"


text \<open>
  How far \<open>Close\<close> is from its return. A goroutine of \<open>monitorDevice\<close> has at most
  four steps to its end once the context is done: to enter \<open>select\<close>, to take the
  \<open>ctx.Done\<close> case, \<open>ticker.Stop\<close> and \<open>wg.Done\<close>. The caller, with \<open>n\<close>
  devices, has the cancelling, the wait, one step for each device and the return.
\<close>

fun steps_left :: "goroutine_pc \<Rightarrow> nat" where
  "steps_left Spawned = 4"
| "steps_left InSelect = 3"
| "steps_left TickerStopPending = 2"
| "steps_left WgDonePending = 1"
| "steps_left Finished = 0"

definition work :: "(nat \<times> goroutine_pc) list \<Rightarrow> nat" where
  "work gs = sum_list (map (\<lambda>g. steps_left (snd g)) gs)"





text \<open>
  The addresses one interface contributes, in the words of the description: none when
  it is down or its addresses cannot be listed, else the text of each IP network address
  that is not loopback and is IPv4.
\<close>

definition address_text :: "net_pkg \<Rightarrow> Addr \<Rightarrow> string list" where
  "address_text net addr =
     (case addr of
        IPNet ip ipmask \<Rightarrow>
          if \<not> IsLoopback net ip \<and> To4 net ip \<noteq> None then [IP_String net ip] else []
      | _ \<Rightarrow> [])"

definition usable_addresses :: "net_pkg \<Rightarrow> Interface \<Rightarrow> string list" where
  "usable_addresses net iface =
     (if Flags iface AND FlagUp = 0 then []
      else case Addrs iface of
             Inl err \<Rightarrow> []
           | Inr addrs \<Rightarrow> concat (map (address_text net) addrs))"

section \<open>A library and inputs to evaluate the definitions on\<close>

text \<open>
  The world counts the calls made. A client's handle is the length of its endpoint; a
  handle that is odd refuses the connection; reading fails on a handle below 4, gives no
  result on 4, and a bad status unless the handle is a multiple of 4.
\<close>

definition example_lib :: "nat opcua_lib" where
  "example_lib =
     \<lparr>NewClient = (\<lambda>endpoint opts w.
        (if endpoint = [] then Inl (LibError ''empty endpoint'')
         else Inr (ClientHandle (length endpoint)), Suc w)),
      Client_Connect = (\<lambda>c cx w.
        (case c of ClientHandle n \<Rightarrow>
           if even n then None else Some (LibError ''connection refused''), Suc w)),
      Client_Read = (\<lambda>c cx req w.
        (case c of ClientHandle n \<Rightarrow>
           if n < 4 then Inl (LibError ''session closed'')
           else Inr \<lparr>Results =
                  (if n = 4 then []
                   else [\<lparr>Value = VariantValue ''42'' ''int32'',
                          Status = (if n mod 4 = 0 then 0 else 0x80340000),
                          SourceTimestamp = 100, ServerTimestamp = 101\<rparr>])\<rparr>, Suc w)),
      Client_Close = (\<lambda>c cx w. (None, Suc w)),
      ParseNodeID = (\<lambda>str. if str = ''i=2258'' then Inr (NumericNodeID 0 2258)
                            else Inl (LibError ''invalid node id''))\<rparr>"

definition example_st :: "nat st" where
  "example_st = \<lparr>world = 0, trace = []\<rparr>"


text \<open>Two devices: the first connects, the second refuses.\<close>

definition example_manager :: MultiInterfaceManager where
  "example_manager =
     AddDevice (AddDevice NewMultiInterfaceManager ''A'' ''opc.tcp://ab'' ''192.168.100.10:0'')
       ''B'' ''opc.tcp://b'' ''192.168.100.20:0''"

text \<open>The two devices after \<open>ConnectAll\<close>.\<close>

definition example_connected :: MultiInterfaceManager where
  "example_connected = snd (fst (ConnectAll example_lib example_manager example_st))"



definition example_net :: net_pkg where
  "example_net =
     \<lparr>Interfaces = Inr
        [\<lparr>Index = 1, IfName = ''lo'', Flags = 0x49,
          Addrs = Inr [IPNet [127, 0, 0, 1] [255, 0, 0, 0]]\<rparr>,
         \<lparr>Index = 2, IfName = ''eth0'', Flags = 0x1043,
          Addrs = Inr [IPNet [192, 168, 100, 10] [255, 255, 255, 0], OtherAddr ''fe80::1'']\<rparr>,
         \<lparr>Index = 3, IfName = ''eth1'', Flags = 0x1002,
          Addrs = Inr [IPNet [192, 168, 100, 20] [255, 255, 255, 0]]\<rparr>,
         \<lparr>Index = 4, IfName = ''eth2'', Flags = 0x1043,
          Addrs = Inl (LibError ''route ip+net: no such network interface'')\<rparr>],
      IsLoopback = (\<lambda>ip. case ip of [a, b, c, d] \<Rightarrow> a = 127 | _ \<Rightarrow> False),
      To4 = (\<lambda>ip. if length ip = 4 then Some ip else None),
      IP_String = (\<lambda>ip. if ip = [192, 168, 100, 10] then ''192.168.100.10''
                         else if ip = [192, 168, 100, 20] then ''192.168.100.20''
                         else if ip = [127, 0, 0, 1] then ''127.0.0.1''
                         else ''?'')\<rparr>"

section \<open>Basic facts about the trace and the world\<close>

lemma trace_emit [simp]: "trace (emit e s) = trace s @ [e]"
  by (simp add: emit_def)

lemma world_emit [simp]: "world (emit e s) = world s"
  by (simp add: emit_def)

lemma trace_emits [simp]: "trace (emits es s) = trace s @ es"
  by (simp add: emits_def)

lemma world_emits [simp]: "world (emits es s) = world s"
  by (simp add: emits_def)

lemma trace_call [simp]: "trace (snd (call f s)) = trace s"
  by (simp add: call_def split: prod.splits)

lemma world_call [simp]: "world (snd (call f s)) = snd (f (world s))"
  by (simp add: call_def split: prod.splits)

lemma fst_call [simp]: "fst (call f s) = fst (f (world s))"
  by (simp add: call_def split: prod.splits)

section \<open>The two-device example\<close>

text \<open>
  C1. For every endpoint and local address, the first thing \<open>connectWithLocalAddr\<close>
  does is the call of \<open>opcua.NewClient\<close> with the option list that holds
  \<open>LocalAddr(localAddr)\<close> together with security policy None, security mode None,
  \<open>AutoReconnect(true)\<close> and a reconnect interval of five seconds; it makes no other
  call of \<open>NewClient\<close>, and \<open>Connect\<close> comes after it, on the client this call
  made. When \<open>NewClient\<close> or \<open>Connect\<close> returns an error, the function returns a
  nil client and an error that is not nil; otherwise it returns the client and nil.
\<close>

theorem connectWithLocalAddr_local_addr_first:
  fixes lib :: "'w opcua_lib"
  defines "opts \<equiv> \<lambda>localAddr.
             [opcua_SecurityPolicy SecurityPolicyURINone, opcua_SecurityModeString ''None'',
              opcua_LocalAddr localAddr, opcua_AutoReconnect True,
              opcua_ReconnectInterval (5 * Second)]"
  shows "\<exists>rest.
           trace (snd (connectWithLocalAddr lib cx endpoint localAddr s))
             = trace s @ EvNewClient endpoint (opts localAddr) # rest
           \<and> list_all (\<lambda>e. \<not> is_EvNewClient e) rest
           \<and> (case NewClient lib endpoint (opts localAddr) (world s) of
                 (Inl err, w1) \<Rightarrow>
                   rest = []
                   \<and> (\<exists>e. fst (connectWithLocalAddr lib cx endpoint localAddr s) = (None, Some e))
               | (Inr c, w1) \<Rightarrow>
                   (case Client_Connect lib c cx w1 of
                      (Some err, w2) \<Rightarrow>
                        rest = [EvConnect c cx]
                        \<and> (\<exists>e. fst (connectWithLocalAddr lib cx endpoint localAddr s) = (None, Some e))
                    | (None, w2) \<Rightarrow>
                        take 1 rest = [EvConnect c cx]
                        \<and> fst (connectWithLocalAddr lib cx endpoint localAddr s) = (Some c, None)))"
proof -
  obtain nc w1 where nc: "NewClient lib endpoint (opts localAddr) (world s) = (nc, w1)"
    by force
  show ?thesis
  proof (cases nc)
    case (Inl err)
    with nc show ?thesis
      unfolding opts_def
      by (intro exI [of _ "[]"])
        (simp add: connectWithLocalAddr_def connectWithLocalAddr_opts_def call_def emit_def)
  next
    case (Inr c)
    obtain cr w2 where cr: "Client_Connect lib c cx w1 = (cr, w2)"
      by force
    show ?thesis
    proof (cases cr)
      case None
      with nc Inr cr show ?thesis
        unfolding opts_def
        by (intro exI [of _ "[EvConnect c cx,
              EvPrintf ''connected to %s (local address: %s)'' [AStr endpoint, AStr localAddr]]"])
          (simp add: connectWithLocalAddr_def connectWithLocalAddr_opts_def call_def emit_def
            is_EvNewClient_def)
    next
      case (Some err)
      with nc Inr cr show ?thesis
        unfolding opts_def
        by (intro exI [of _ "[EvConnect c cx]"])
          (simp add: connectWithLocalAddr_def connectWithLocalAddr_opts_def call_def emit_def
            is_EvNewClient_def)
    qed
  qed
qed

theorem connectWithLocalAddr_local_addr_first_witness:
  "fst (connectWithLocalAddr example_lib Background ''opc.tcp://ab'' ''192.168.100.10:0'' example_st)
     = (Some (ClientHandle 12), None)
   \<and> fst (connectWithLocalAddr example_lib Background ''opc.tcp://b'' ''192.168.100.10:0'' example_st)
     = (None, Some (Errorf ''connect to server failed: %v'' [AErr (LibError ''connection refused'')]))
   \<and> fst (connectWithLocalAddr example_lib Background '''' ''192.168.100.10:0'' example_st)
     = (None, Some (Errorf ''create client failed: %v'' [AErr (LibError ''empty endpoint'')]))
   \<and> trace (snd (connectWithLocalAddr example_lib Background ''opc.tcp://b'' ''192.168.100.10:0'' example_st))
     = [EvNewClient ''opc.tcp://b''
          [opcua_SecurityPolicy SecurityPolicyURINone, opcua_SecurityModeString ''None'',
           opcua_LocalAddr ''192.168.100.10:0'', opcua_AutoReconnect True,
           opcua_ReconnectInterval 5000000000],
        EvConnect (ClientHandle 11) Background]"
  using connectWithLocalAddr_local_addr_first
      [of example_lib Background "''opc.tcp://ab''" "''192.168.100.10:0''" example_st]
    connectWithLocalAddr_local_addr_first
      [of example_lib Background "''opc.tcp://b''" "''192.168.100.10:0''" example_st]
    connectWithLocalAddr_local_addr_first
      [of example_lib Background "''''" "''192.168.100.10:0''" example_st]
  by (simp add: example_lib_def example_st_def connectWithLocalAddr_def
      connectWithLocalAddr_opts_def call_def emit_def Second_def Millisecond_def)

text \<open>
  C6. \<open>readNodeValue\<close> returns an error that is not nil exactly when the node ID does
  not parse, or the \<open>Read\<close> call returns an error, or the response has no results, or
  the status of the first result is not \<open>StatusOK\<close>. Otherwise it returns nil, having
  made the read request and then printed the value of the first result, its server
  timestamp and its source timestamp.
\<close>

theorem readNodeValue_error_iff:
  "(fst (readNodeValue lib cx c nodeIDStr deviceName s) \<noteq> None) =
     ((\<exists>err. ParseNodeID lib nodeIDStr = Inl err) \<or>
      (\<exists>nid. ParseNodeID lib nodeIDStr = Inr nid \<and>
         ((\<exists>err. fst (Client_Read lib c cx (readNodeValue_req nid) (world s)) = Inl err) \<or>
          (\<exists>resp. fst (Client_Read lib c cx (readNodeValue_req nid) (world s)) = Inr resp \<and>
             (Results resp = [] \<or> Status (hd (Results resp)) \<noteq> StatusOK)))))
   \<and> (fst (readNodeValue lib cx c nodeIDStr deviceName s) = None \<longrightarrow>
        (\<exists>nid resp result.
           ParseNodeID lib nodeIDStr = Inr nid \<and>
           fst (Client_Read lib c cx (readNodeValue_req nid) (world s)) = Inr resp \<and>
           result = hd (Results resp) \<and>
           trace (snd (readNodeValue lib cx c nodeIDStr deviceName s)) =
             trace s @
             [EvRead c cx (readNodeValue_req nid),
              EvPrintf ''%s - value of node %s: %v (type: %T)''
                [AStr deviceName, AStr nodeIDStr, AVariant (Value result), AVariant (Value result)],
              EvPrintf ''%s - server timestamp: %v'' [AStr deviceName, ATime (ServerTimestamp result)],
              EvPrintf ''%s - source timestamp: %v'' [AStr deviceName, ATime (SourceTimestamp result)]]))"
proof (cases "ParseNodeID lib nodeIDStr")
  case (Inl err)
  then show ?thesis
    by (simp add: readNodeValue_def)
next
  case (Inr nid)
  obtain rr w1 where rr: "Client_Read lib c cx (readNodeValue_req nid) (world s) = (rr, w1)"
    by force
  show ?thesis
  proof (cases rr)
    case (Inl err)
    with Inr rr show ?thesis
      by (simp add: readNodeValue_def call_def)
  next
    case resp: (Inr resp)
    show ?thesis
    proof (cases "Results resp")
      case Nil
      with Inr rr resp show ?thesis
        by (simp add: readNodeValue_def call_def)
    next
      case (Cons result rest)
      with Inr rr resp show ?thesis
        by (simp add: readNodeValue_def call_def Let_def)
    qed
  qed
qed

theorem readNodeValue_error_iff_witness:
  "fst (readNodeValue example_lib Background (ClientHandle 8) ''i=2258'' ''device 1'' example_st) = None
   \<and> trace (snd (readNodeValue example_lib Background (ClientHandle 8) ''i=2258'' ''device 1'' example_st)) =
       [EvRead (ClientHandle 8) Background (readNodeValue_req (NumericNodeID 0 2258)),
        EvPrintf ''%s - value of node %s: %v (type: %T)''
          [AStr ''device 1'', AStr ''i=2258'', AVariant (VariantValue ''42'' ''int32''),
           AVariant (VariantValue ''42'' ''int32'')],
        EvPrintf ''%s - server timestamp: %v'' [AStr ''device 1'', ATime 101],
        EvPrintf ''%s - source timestamp: %v'' [AStr ''device 1'', ATime 100]]
   \<and> fst (readNodeValue example_lib Background (ClientHandle 6) ''i=2258'' ''device 1'' example_st) \<noteq> None
   \<and> fst (readNodeValue example_lib Background (ClientHandle 4) ''i=2258'' ''device 1'' example_st) \<noteq> None
   \<and> fst (readNodeValue example_lib Background (ClientHandle 2) ''i=2258'' ''device 1'' example_st) \<noteq> None
   \<and> fst (readNodeValue example_lib Background (ClientHandle 8) ''ns=x'' ''device 1'' example_st) \<noteq> None"
  using readNodeValue_error_iff
      [of example_lib Background "ClientHandle 8" "''i=2258''" "''device 1''" example_st]
    readNodeValue_error_iff
      [of example_lib Background "ClientHandle 6" "''i=2258''" "''device 1''" example_st]
  by (simp add: example_lib_def example_st_def readNodeValue_def readNodeValue_req_def call_def
      StatusOK_def)

lemma is_lib_call_simps [simp]:
  "is_lib_call (EvNewClient e os)" "is_lib_call (EvConnect c cx)"
  "is_lib_call (EvRead c cx rq)" "is_lib_call (EvClose c cx)"
  "\<not> is_lib_call (EvPrintf f as)" "\<not> is_lib_call (EvLogPrintf f as)"
  "\<not> is_lib_call (EvLogFatalf f as)"
  by (simp_all add: is_lib_call_def)

lemma is_EvRead_simps [simp]:
  "\<not> is_EvRead (EvNewClient e os)" "\<not> is_EvRead (EvConnect c cx)"
  "is_EvRead (EvRead c cx rq)" "\<not> is_EvRead (EvClose c cx)"
  "\<not> is_EvRead (EvPrintf f as)" "\<not> is_EvRead (EvLogPrintf f as)"
  "\<not> is_EvRead (EvLogFatalf f as)"
  by (simp_all add: is_EvRead_def)













section \<open>The connection manager\<close>

lemma ConnectAll_loop_Cons:
  "ConnectAll_loop lib m p (device # rest) s =
     (fst (ConnectAll_body lib m p device s) #
        fst (ConnectAll_loop lib m (Suc p) rest (snd (ConnectAll_body lib m p device s))),
      snd (ConnectAll_loop lib m (Suc p) rest (snd (ConnectAll_body lib m p device s))))"
  by (simp add: split_beta)

lemma ConnectAll_loop_append:
  "ConnectAll_loop lib m p (xs @ ys) s =
     (fst (ConnectAll_loop lib m p xs s) @
        fst (ConnectAll_loop lib m (p + length xs) ys (snd (ConnectAll_loop lib m p xs s))),
      snd (ConnectAll_loop lib m (p + length xs) ys (snd (ConnectAll_loop lib m p xs s))))"
proof (induction xs arbitrary: p s)
  case Nil
  show ?case by simp
next
  case (Cons x xs)
  show ?case
    unfolding append_Cons ConnectAll_loop_Cons Cons.IH
    by simp
qed

lemma length_ConnectAll_loop: "length (fst (ConnectAll_loop lib m p ds s)) = length ds"
proof (induction ds arbitrary: p s)
  case Nil
  show ?case by simp
next
  case (Cons d ds)
  show ?case
    unfolding ConnectAll_loop_Cons by (simp add: Cons.IH)
qed

text \<open>The device at position \<open>i\<close> is what the body of the loop makes of it, in the
  state the loop has reached by then.\<close>

lemma ConnectAll_loop_nth:
  assumes "i < length ds"
  shows "fst (ConnectAll_loop lib m p ds s) ! i =
         fst (ConnectAll_body lib m (p + i) (ds ! i) (snd (ConnectAll_loop lib m p (take i ds) s)))"
proof -
  from assms have ds: "ds = take i ds @ ds ! i # drop (Suc i) ds"
    by (simp add: id_take_nth_drop)
  have len: "length (take i ds) = i"
    using assms by simp
  have "fst (ConnectAll_loop lib m p (take i ds @ ds ! i # drop (Suc i) ds) s) ! i =
        fst (ConnectAll_body lib m (p + i) (ds ! i) (snd (ConnectAll_loop lib m p (take i ds) s)))"
    unfolding ConnectAll_loop_append ConnectAll_loop_Cons
    using assms by (simp add: nth_append length_ConnectAll_loop)
  with ds show ?thesis by simp
qed

lemma connectDevice_outcome:
  fixes lib :: "'w opcua_lib" and m p device s
  defines "r \<equiv> connectDevice lib m p device s"
  shows "(\<exists>err. fst (fst r) = Some err \<and> snd (fst r) = device)
       \<or> (\<exists>c. fst (fst r) = None
             \<and> fst (NewClient lib (Endpoint device) (connectDevice_opts device) (world s)) = Inr c
             \<and> snd (fst r) = device\<lparr>Client := Some c, Connected := True, LastError := None\<rparr>)"
  unfolding r_def connectDevice_def Let_def
  by (auto simp: call_def split: prod.splits sum.splits option.splits)

lemma ConnectAll_body_failed:
  assumes "fst (fst (connectDevice lib m p device s)) = Some err"
  shows "fst (ConnectAll_body lib m p device s) = device\<lparr>Connected := False, LastError := Some err\<rparr>"
    and "\<exists>pre post. trace (snd (ConnectAll_body lib m p device s)) =
           trace s @ pre @ EvLogPrintf ''connecting device %s failed: %v'' [AStr (Name device), AErr err] # post"
proof -
  from assms connectDevice_outcome [of lib m p device s]
  have d: "snd (fst (connectDevice lib m p device s)) = device"
    by auto
  obtain s1 where r: "connectDevice lib m p device s = ((Some err, device), s1)"
    using assms d by (cases "connectDevice lib m p device s") auto
  show "fst (ConnectAll_body lib m p device s) = device\<lparr>Connected := False, LastError := Some err\<rparr>"
    by (simp add: ConnectAll_body_def r setError_def)
  have "\<exists>pre. trace s1 = trace s @ pre"
    using r unfolding connectDevice_def Let_def
    by (auto simp: call_def split: prod.splits sum.splits option.splits)
  then obtain pre where "trace s1 = trace s @ pre" ..
  then show "\<exists>pre post. trace (snd (ConnectAll_body lib m p device s)) =
           trace s @ pre @ EvLogPrintf ''connecting device %s failed: %v'' [AStr (Name device), AErr err] # post"
    by (intro exI [of _ pre] exI [of _ "[EvLock p, EvWr p FConnected, EvWr p FLastError, EvUnlock p]"])
      (simp add: ConnectAll_body_def r setError_def)
qed

lemma ConnectAll_body_connected:
  assumes "fst (fst (connectDevice lib m p device s)) = None"
  shows "fst (ConnectAll_body lib m p device s) = snd (fst (connectDevice lib m p device s))"
  using assms
  by (cases "connectDevice lib m p device s") (auto simp: ConnectAll_body_def)


lemma ConnectAll_body_trace_extends:
  "\<exists>es. trace (snd (ConnectAll_body lib m p device s)) = trace s @ es"
  unfolding ConnectAll_body_def connectDevice_def setError_def Let_def
  by (auto simp: call_def split: prod.splits sum.splits option.splits)

lemma ConnectAll_loop_trace_extends:
  "\<exists>es. trace (snd (ConnectAll_loop lib m p ds s)) = trace s @ es"
proof (induction ds arbitrary: p s)
  case Nil
  show ?case by simp
next
  case (Cons d ds)
  obtain es1 where es1: "trace (snd (ConnectAll_body lib m p d s)) = trace s @ es1"
    using ConnectAll_body_trace_extends by blast
  obtain es2 where es2:
    "trace (snd (ConnectAll_loop lib m (Suc p) ds (snd (ConnectAll_body lib m p d s)))) =
     trace (snd (ConnectAll_body lib m p d s)) @ es2"
    using Cons.IH by blast
  show ?case
    unfolding ConnectAll_loop_Cons by (simp add: es1 es2)
qed

lemma is_EvNewClient_simps [simp]:
  "is_EvNewClient (EvNewClient e os)" "\<not> is_EvNewClient (EvConnect c cx)"
  "\<not> is_EvNewClient (EvPrintf f as)" "\<not> is_EvNewClient (EvLogPrintf f as)"
  "\<not> is_EvNewClient (EvLock p)" "\<not> is_EvNewClient (EvUnlock p)"
  "\<not> is_EvNewClient (EvWr p fd)"
  by (simp_all add: is_EvNewClient_def)

lemma ConnectAll_body_attempt:
  "filter is_EvNewClient (trace (snd (ConnectAll_body lib m p device s))) =
   filter is_EvNewClient (trace s) @ [EvNewClient (Endpoint device) (connectDevice_opts device)]"
  unfolding ConnectAll_body_def connectDevice_def setError_def Let_def
  by (auto simp: call_def split: prod.splits sum.splits option.splits)

lemma ConnectAll_loop_attempts:
  "filter is_EvNewClient (trace (snd (ConnectAll_loop lib m p ds s))) =
   filter is_EvNewClient (trace s) @ map (\<lambda>d. EvNewClient (Endpoint d) (connectDevice_opts d)) ds"
proof (induction ds arbitrary: p s)
  case Nil
  show ?case by simp
next
  case (Cons d ds)
  show ?case
    unfolding ConnectAll_loop_Cons by (simp add: Cons.IH ConnectAll_body_attempt)
qed

text \<open>
  C2. The manager tracks the state of each connection. When \<open>connectDevice\<close> returns
  nil, the device has \<open>Connected\<close> true, \<open>Client\<close> the client that this call's
  \<open>NewClient\<close> made, and \<open>LastError\<close> nil. When the connection attempt that
  \<open>ConnectAll\<close> makes for the device at position \<open>i\<close> fails with some error, the
  device has \<open>Connected\<close> false and that error in \<open>LastError\<close> after \<open>ConnectAll\<close>.
\<close>

theorem connection_state_tracked:
  "(fst (fst (connectDevice lib m p device s)) = None \<longrightarrow>
      Connected (snd (fst (connectDevice lib m p device s)))
      \<and> LastError (snd (fst (connectDevice lib m p device s))) = None
      \<and> (\<exists>c. fst (NewClient lib (Endpoint device) (connectDevice_opts device) (world s)) = Inr c
            \<and> Client (snd (fst (connectDevice lib m p device s))) = Some c))
   \<and> (\<forall>i err. i < length (devices m) \<longrightarrow>
         fst (fst (connectDevice lib m i (devices m ! i)
                     (snd (ConnectAll_loop lib m 0 (take i (devices m)) s)))) = Some err \<longrightarrow>
         Connected (devices (snd (fst (ConnectAll lib m s))) ! i) = False
         \<and> LastError (devices (snd (fst (ConnectAll lib m s))) ! i) = Some err)"
proof (intro conjI allI impI)
  assume ok: "fst (fst (connectDevice lib m p device s)) = None"
  with connectDevice_outcome [of lib m p device s]
  obtain c where c: "fst (NewClient lib (Endpoint device) (connectDevice_opts device) (world s)) = Inr c"
    and d: "snd (fst (connectDevice lib m p device s)) =
              device\<lparr>Client := Some c, Connected := True, LastError := None\<rparr>"
    by auto
  show "Connected (snd (fst (connectDevice lib m p device s)))"
    by (simp add: d)
  show "LastError (snd (fst (connectDevice lib m p device s))) = None"
    by (simp add: d)
  show "\<exists>c. fst (NewClient lib (Endpoint device) (connectDevice_opts device) (world s)) = Inr c
            \<and> Client (snd (fst (connectDevice lib m p device s))) = Some c"
    using c d by simp
next
  fix i err
  assume i: "i < length (devices m)"
    and failed: "fst (fst (connectDevice lib m i (devices m ! i)
                     (snd (ConnectAll_loop lib m 0 (take i (devices m)) s)))) = Some err"
  have nth: "devices (snd (fst (ConnectAll lib m s))) ! i =
             fst (ConnectAll_body lib m i (devices m ! i)
                    (snd (ConnectAll_loop lib m 0 (take i (devices m)) s)))"
    using ConnectAll_loop_nth [OF i, of lib m 0 s]
    by (simp add: ConnectAll_def split_beta)
  show "Connected (devices (snd (fst (ConnectAll lib m s))) ! i) = False"
    unfolding nth ConnectAll_body_failed(1) [OF failed] by simp
  show "LastError (devices (snd (fst (ConnectAll lib m s))) ! i) = Some err"
    unfolding nth ConnectAll_body_failed(1) [OF failed] by simp
qed

text \<open>
  C9. \<open>ConnectAll\<close> returns nil for every list of devices and every behaviour of the
  library. It keeps the devices, attempts each once in the order of the list (one
  \<open>NewClient\<close> call for each, whatever failed before), and a failed attempt is logged
  and recorded in the \<open>LastError\<close> of its device.
\<close>

theorem ConnectAll_returns_nil:
  "fst (fst (ConnectAll lib m s)) = None
   \<and> length (devices (snd (fst (ConnectAll lib m s)))) = length (devices m)
   \<and> filter is_EvNewClient (trace (snd (ConnectAll lib m s))) =
       filter is_EvNewClient (trace s) @
       map (\<lambda>d. EvNewClient (Endpoint d) (connectDevice_opts d)) (devices m)
   \<and> (\<forall>i err. i < length (devices m) \<longrightarrow>
         fst (fst (connectDevice lib m i (devices m ! i)
                     (snd (ConnectAll_loop lib m 0 (take i (devices m)) s)))) = Some err \<longrightarrow>
         LastError (devices (snd (fst (ConnectAll lib m s))) ! i) = Some err
         \<and> (\<exists>pre post. trace (snd (ConnectAll lib m s)) =
               trace s @ pre @
               EvLogPrintf ''connecting device %s failed: %v'' [AStr (Name (devices m ! i)), AErr err] # post))"
proof (intro conjI allI impI)
  show "fst (fst (ConnectAll lib m s)) = None"
    by (simp add: ConnectAll_def split_beta)
  show "length (devices (snd (fst (ConnectAll lib m s)))) = length (devices m)"
    by (simp add: ConnectAll_def split_beta length_ConnectAll_loop)
  show "filter is_EvNewClient (trace (snd (ConnectAll lib m s))) =
       filter is_EvNewClient (trace s) @
       map (\<lambda>d. EvNewClient (Endpoint d) (connectDevice_opts d)) (devices m)"
    by (simp add: ConnectAll_def split_beta ConnectAll_loop_attempts)
next
  fix i err
  assume i: "i < length (devices m)"
    and failed: "fst (fst (connectDevice lib m i (devices m ! i)
                     (snd (ConnectAll_loop lib m 0 (take i (devices m)) s)))) = Some err"
  let ?si = "snd (ConnectAll_loop lib m 0 (take i (devices m)) s)"
  let ?sb = "snd (ConnectAll_body lib m i (devices m ! i) ?si)"
  have nth: "devices (snd (fst (ConnectAll lib m s))) ! i =
             fst (ConnectAll_body lib m i (devices m ! i) ?si)"
    using ConnectAll_loop_nth [OF i, of lib m 0 s]
    by (simp add: ConnectAll_def split_beta)
  show "LastError (devices (snd (fst (ConnectAll lib m s))) ! i) = Some err"
    unfolding nth ConnectAll_body_failed(1) [OF failed] by simp
  from i have ds: "devices m = take i (devices m) @ devices m ! i # drop (Suc i) (devices m)"
    by (simp add: id_take_nth_drop)
  have len: "length (take i (devices m)) = i"
    using i by simp
  have fin: "snd (ConnectAll lib m s) =
             snd (ConnectAll_loop lib m (Suc i) (drop (Suc i) (devices m)) ?sb)"
  proof -
    have "snd (ConnectAll_loop lib m 0 (take i (devices m) @ devices m ! i # drop (Suc i) (devices m)) s) =
          snd (ConnectAll_loop lib m (Suc i) (drop (Suc i) (devices m)) ?sb)"
      unfolding ConnectAll_loop_append ConnectAll_loop_Cons using len by simp
    with ds show ?thesis
      by (simp add: ConnectAll_def split_beta)
  qed
  obtain es0 where es0: "trace ?si = trace s @ es0"
    using ConnectAll_loop_trace_extends by blast
  obtain pre post where log: "trace ?sb = trace ?si @ pre @
      EvLogPrintf ''connecting device %s failed: %v'' [AStr (Name (devices m ! i)), AErr err] # post"
    using ConnectAll_body_failed(2) [OF failed] by blast
  obtain es1 where es1:
    "trace (snd (ConnectAll_loop lib m (Suc i) (drop (Suc i) (devices m)) ?sb)) = trace ?sb @ es1"
    using ConnectAll_loop_trace_extends by blast
  show "\<exists>pre post. trace (snd (ConnectAll lib m s)) =
               trace s @ pre @
               EvLogPrintf ''connecting device %s failed: %v'' [AStr (Name (devices m ! i)), AErr err] # post"
    unfolding fin es1 log es0
    by (intro exI [of _ "es0 @ pre"] exI [of _ "post @ es1"]) simp
qed


theorem connection_state_tracked_witness:
  "Connected (devices (snd (fst (ConnectAll example_lib example_manager example_st))) ! 0)
   \<and> Client (devices (snd (fst (ConnectAll example_lib example_manager example_st))) ! 0)
       = Some (ClientHandle 12)
   \<and> LastError (devices (snd (fst (ConnectAll example_lib example_manager example_st))) ! 0) = None
   \<and> \<not> Connected (devices (snd (fst (ConnectAll example_lib example_manager example_st))) ! 1)
   \<and> LastError (devices (snd (fst (ConnectAll example_lib example_manager example_st))) ! 1)
       = Some (Errorf ''connect failed: %v'' [AErr (LibError ''connection refused'')])"
  using connection_state_tracked
    [of example_lib example_manager 0 "devices example_manager ! 0" example_st]
  by (simp add: example_lib_def example_manager_def example_st_def NewMultiInterfaceManager_def
      AddDevice_def ConnectAll_def ConnectAll_body_def connectDevice_def connectDevice_opts_def
      setError_def call_def emit_def emits_def Let_def)

theorem ConnectAll_returns_nil_witness:
  "fst (fst (ConnectAll example_lib example_manager example_st)) = None
   \<and> filter is_EvNewClient (trace (snd (ConnectAll example_lib example_manager example_st))) =
       [EvNewClient ''opc.tcp://ab'' (connectDevice_opts (devices example_manager ! 0)),
        EvNewClient ''opc.tcp://b'' (connectDevice_opts (devices example_manager ! 1))]
   \<and> EvLogPrintf ''connecting device %s failed: %v''
         [AStr ''B'', AErr (Errorf ''connect failed: %v'' [AErr (LibError ''connection refused'')])]
       \<in> set (trace (snd (ConnectAll example_lib example_manager example_st)))
   \<and> map LastError (devices (snd (fst (ConnectAll example_lib example_manager example_st)))) =
       [None, Some (Errorf ''connect failed: %v'' [AErr (LibError ''connection refused'')])]"
  using ConnectAll_returns_nil [of example_lib example_manager example_st]
  by (simp add: example_lib_def example_manager_def example_st_def NewMultiInterfaceManager_def
      AddDevice_def ConnectAll_def ConnectAll_body_def connectDevice_def connectDevice_opts_def
      setError_def call_def emit_def emits_def Let_def)

lemma device_inv_connectDevice:
  "device_inv d \<Longrightarrow> device_inv (snd (fst (connectDevice lib m p d s)))"
  using connectDevice_outcome [of lib m p d s]
  by (auto simp: device_inv_def)

lemma device_inv_setError: "device_inv (fst (setError p d err s))"
  by (simp add: setError_def device_inv_def)

lemma device_inv_ConnectAll_body:
  "device_inv d \<Longrightarrow> device_inv (fst (ConnectAll_body lib m p d s))"
proof (cases "fst (fst (connectDevice lib m p d s))")
  case None
  assume "device_inv d"
  then show ?thesis
    unfolding ConnectAll_body_connected [OF None] by (rule device_inv_connectDevice)
next
  case (Some err)
  show ?thesis
    unfolding ConnectAll_body_failed(1) [OF Some] by (simp add: device_inv_def)
qed

lemma device_inv_ConnectAll_loop:
  "list_all device_inv ds \<Longrightarrow> list_all device_inv (fst (ConnectAll_loop lib m p ds s))"
proof (induction ds arbitrary: p s)
  case Nil
  show ?case by simp
next
  case (Cons d ds)
  then show ?case
    unfolding ConnectAll_loop_Cons by (simp add: device_inv_ConnectAll_body)
qed

lemma list_all_update: "list_all P xs \<Longrightarrow> P x \<Longrightarrow> list_all P (xs[i := x])"
  by (induction xs arbitrary: i) (auto split: nat.splits)

lemma device_inv_apply_op:
  assumes "list_all device_inv (devices (fst ms))"
  shows "list_all device_inv (devices (fst (apply_op lib ms op)))"
proof -
  obtain m s where ms: "ms = (m, s)" by (cases ms)
  with assms have inv: "list_all device_inv (devices m)" by simp
  show ?thesis
  proof (cases op)
    case (Op_AddDevice name endpoint localAddr)
    with inv ms show ?thesis
      by (simp add: AddDevice_def device_inv_def)
  next
    case Op_ConnectAll
    with inv ms show ?thesis
      by (simp add: ConnectAll_def split_beta device_inv_ConnectAll_loop)
  next
    case (Op_connectDevice p)
    show ?thesis
    proof (cases "p < length (devices m)")
      case True
      with inv have "device_inv (devices m ! p)"
        by (simp add: list_all_length)
      then have "device_inv (snd (fst (connectDevice lib m p (devices m ! p) s)))"
        by (rule device_inv_connectDevice)
      with inv True ms Op_connectDevice show ?thesis
        by (simp add: split_beta list_all_update)
    next
      case False
      with inv ms Op_connectDevice show ?thesis by simp
    qed
  next
    case (Op_setError p err)
    with inv ms show ?thesis
      by (simp add: split_beta list_all_update device_inv_setError)
  next
    case (Op_monitorDevice_tick p)
    with inv ms show ?thesis by simp
  qed
qed

lemma device_inv_apply_ops:
  "list_all device_inv (devices (fst ms)) \<Longrightarrow>
   list_all device_inv (devices (fst (apply_ops lib ms ops)))"
  unfolding apply_ops_def
proof (induction ops arbitrary: ms)
  case Nil
  then show ?case by simp
next
  case (Cons op ops)
  from Cons.prems have "list_all device_inv (devices (fst (apply_op lib ms op)))"
    by (rule device_inv_apply_op)
  then show ?case
    by (simp add: Cons.IH)
qed

text \<open>
  C8. A device that \<open>AddDevice\<close> made, and that only \<open>connectDevice\<close>,
  \<open>setError\<close>, \<open>ConnectAll\<close> and the monitoring have touched since, in any order
  and any number of times, has a client that is not nil and no last error whenever
  \<open>Connected\<close> is true. The writes of \<open>connectDevice\<close> and of \<open>setError\<close> each
  happen inside one critical section, so the operations here are the steps that goroutines
  holding the mutex can interleave. A device just added has \<open>Connected\<close> false,
  \<open>Client\<close> nil and \<open>LastError\<close> nil.
\<close>

theorem device_state_invariant:
  "(\<forall>d \<in> set (devices (fst (apply_ops lib (NewMultiInterfaceManager, s) ops))).
      Connected d \<longrightarrow> Client d \<noteq> None \<and> LastError d = None)
   \<and> devices (AddDevice m name endpoint localAddr) =
       devices m @ [\<lparr>Name = name, Endpoint = endpoint, LocalAddr = localAddr,
                     Client = None, Connected = False, LastError = None\<rparr>]"
proof
  have "list_all device_inv (devices (fst (apply_ops lib (NewMultiInterfaceManager, s) ops)))"
    by (rule device_inv_apply_ops) (simp add: NewMultiInterfaceManager_def)
  then show "\<forall>d \<in> set (devices (fst (apply_ops lib (NewMultiInterfaceManager, s) ops))).
      Connected d \<longrightarrow> Client d \<noteq> None \<and> LastError d = None"
    by (simp add: list_all_iff device_inv_def)
  show "devices (AddDevice m name endpoint localAddr) =
       devices m @ [\<lparr>Name = name, Endpoint = endpoint, LocalAddr = localAddr,
                     Client = None, Connected = False, LastError = None\<rparr>]"
    by (simp add: AddDevice_def)
qed

theorem device_state_invariant_witness:
  "map (\<lambda>d. (Connected d, Client d, LastError d))
     (devices (fst (apply_ops example_lib (NewMultiInterfaceManager, example_st)
        [Op_AddDevice ''A'' ''opc.tcp://ab'' ''192.168.100.10:0'',
         Op_AddDevice ''B'' ''opc.tcp://b'' ''192.168.100.20:0'',
         Op_ConnectAll,
         Op_monitorDevice_tick 0,
         Op_connectDevice 1,
         Op_setError 1 (Some (LibError ''lost''))]))) =
   [(True, Some (ClientHandle 12), None), (False, None, Some (LibError ''lost''))]"
  using device_state_invariant
    [of example_lib example_st
        "[Op_AddDevice ''A'' ''opc.tcp://ab'' ''192.168.100.10:0'',
          Op_AddDevice ''B'' ''opc.tcp://b'' ''192.168.100.20:0'',
          Op_ConnectAll,
          Op_monitorDevice_tick 0,
          Op_connectDevice 1,
          Op_setError 1 (Some (LibError ''lost''))]"]
  by (simp add: apply_ops_def example_lib_def example_st_def NewMultiInterfaceManager_def
      AddDevice_def ConnectAll_def ConnectAll_body_def connectDevice_def connectDevice_opts_def
      setError_def monitorDevice_tick_def IsConnected_def GetClient_def healthCheck_def
      healthCheck_req_def call_def emit_def emits_def Let_def StatusOK_def)

section \<open>\<open>GetAvailableInterfaces\<close>\<close>

lemma GetAvailableInterfaces_addrs_eq:
  "GetAvailableInterfaces_addrs net addrs result = result @ concat (map (address_text net) addrs)"
proof (induction addrs arbitrary: result)
  case Nil
  show ?case by simp
next
  case (Cons addr addrs)
  show ?case
    by (cases addr) (simp_all add: Cons.IH address_text_def)
qed

lemma GetAvailableInterfaces_loop_eq:
  "GetAvailableInterfaces_loop net ifs result = result @ concat (map (usable_addresses net) ifs)"
proof (induction ifs arbitrary: result)
  case Nil
  show ?case by simp
next
  case (Cons iface ifs)
  show ?case
    by (cases "Addrs iface")
      (simp_all add: Cons.IH usable_addresses_def GetAvailableInterfaces_addrs_eq)
qed

lemma usable_addresses_member:
  assumes "str \<in> set (usable_addresses net iface)"
  shows "\<exists>addrs ip ipmask.
           Flags iface AND FlagUp \<noteq> 0 \<and> Addrs iface = Inr addrs \<and> IPNet ip ipmask \<in> set addrs
           \<and> \<not> IsLoopback net ip \<and> To4 net ip \<noteq> None \<and> str = IP_String net ip"
proof -
  from assms have up: "Flags iface AND FlagUp \<noteq> 0"
    by (auto simp: usable_addresses_def split: if_splits)
  from assms up obtain addrs where addrs: "Addrs iface = Inr addrs"
    by (cases "Addrs iface") (auto simp: usable_addresses_def)
  with assms up have "str \<in> set (concat (map (address_text net) addrs))"
    by (simp add: usable_addresses_def)
  then obtain addr where addr: "addr \<in> set addrs" and str: "str \<in> set (address_text net addr)"
    by auto
  from str obtain ip ipmask where "addr = IPNet ip ipmask" "\<not> IsLoopback net ip"
    "To4 net ip \<noteq> None" "str = IP_String net ip"
    by (cases addr) (auto simp: address_text_def split: if_splits)
  with up addrs addr show ?thesis by blast
qed

text \<open>
  C10. \<open>GetAvailableInterfaces\<close> returns an error exactly when \<open>net.Interfaces\<close>
  does. Otherwise its list is, interface by interface in the order enumerated, the text of
  each address of the interface that is an IP network, not loopback and IPv4; an interface
  that is down, or whose addresses cannot be listed, contributes nothing and no error. So
  every string returned is such an address of an interface whose up-flag is set.
\<close>

theorem GetAvailableInterfaces_lists_up_ipv4:
  "GetAvailableInterfaces net =
     (case Interfaces net of
        Inl err \<Rightarrow> ([], Some err)
      | Inr ifs \<Rightarrow> (concat (map (usable_addresses net) ifs), None))
   \<and> (snd (GetAvailableInterfaces net) \<noteq> None) = (\<exists>err. Interfaces net = Inl err)
   \<and> (\<forall>ifs. Interfaces net = Inr ifs \<longrightarrow>
        (\<forall>str \<in> set (fst (GetAvailableInterfaces net)).
           \<exists>iface \<in> set ifs. \<exists>addrs ip ipmask.
             Flags iface AND FlagUp \<noteq> 0 \<and> Addrs iface = Inr addrs \<and> IPNet ip ipmask \<in> set addrs
             \<and> \<not> IsLoopback net ip \<and> To4 net ip \<noteq> None \<and> str = IP_String net ip))"
proof (intro conjI allI impI ballI)
  show eq: "GetAvailableInterfaces net =
     (case Interfaces net of
        Inl err \<Rightarrow> ([], Some err)
      | Inr ifs \<Rightarrow> (concat (map (usable_addresses net) ifs), None))"
    by (simp add: GetAvailableInterfaces_def GetAvailableInterfaces_loop_eq split: sum.splits)
  show "(snd (GetAvailableInterfaces net) \<noteq> None) = (\<exists>err. Interfaces net = Inl err)"
    by (simp add: GetAvailableInterfaces_def split: sum.splits)
  fix ifs str
  assume ifs: "Interfaces net = Inr ifs" and "str \<in> set (fst (GetAvailableInterfaces net))"
  with eq have "str \<in> set (concat (map (usable_addresses net) ifs))"
    by simp
  then obtain iface where "iface \<in> set ifs" "str \<in> set (usable_addresses net iface)"
    by auto
  then show "\<exists>iface \<in> set ifs. \<exists>addrs ip ipmask.
             Flags iface AND FlagUp \<noteq> 0 \<and> Addrs iface = Inr addrs \<and> IPNet ip ipmask \<in> set addrs
             \<and> \<not> IsLoopback net ip \<and> To4 net ip \<noteq> None \<and> str = IP_String net ip"
    using usable_addresses_member by blast
qed

theorem GetAvailableInterfaces_lists_up_ipv4_witness:
  "GetAvailableInterfaces example_net = ([''192.168.100.10''], None)
   \<and> GetAvailableInterfaces (example_net\<lparr>Interfaces := Inl (LibError ''netlink: permission denied'')\<rparr>)
       = ([], Some (LibError ''netlink: permission denied''))"
  using GetAvailableInterfaces_lists_up_ipv4 [of example_net]
    GetAvailableInterfaces_lists_up_ipv4
      [of "example_net\<lparr>Interfaces := Inl (LibError ''netlink: permission denied'')\<rparr>"]
  by (simp add: example_net_def GetAvailableInterfaces_def FlagUp_def)

section \<open>The lock discipline\<close>

lemma guarded_append:
  "guarded held (xs @ ys) = (guarded held xs \<and> guarded (locks_after held xs) ys)"
proof (induction xs arbitrary: held)
  case Nil
  show ?case by simp
next
  case (Cons e es)
  show ?case
  proof (cases e)
    case (EvLock p)
    show ?thesis
      unfolding EvLock append_Cons guarded.simps locks_after.simps by (rule Cons.IH)
  next
    case (EvUnlock p)
    show ?thesis
      unfolding EvUnlock append_Cons guarded.simps locks_after.simps by (rule Cons.IH)
  next
    case (EvRLock p)
    show ?thesis
      unfolding EvRLock append_Cons guarded.simps locks_after.simps by (rule Cons.IH)
  next
    case (EvRUnlock p)
    show ?thesis
      unfolding EvRUnlock append_Cons guarded.simps locks_after.simps by (rule Cons.IH)
  qed (use Cons.IH [of held] in simp_all)
qed

lemma locks_after_append:
  "locks_after held (xs @ ys) = locks_after (locks_after held xs) ys"
proof (induction xs arbitrary: held)
  case Nil
  show ?case by simp
next
  case (Cons e es)
  show ?case
  proof (cases e)
    case (EvLock p)
    show ?thesis
      unfolding EvLock append_Cons guarded.simps locks_after.simps by (rule Cons.IH)
  next
    case (EvUnlock p)
    show ?thesis
      unfolding EvUnlock append_Cons guarded.simps locks_after.simps by (rule Cons.IH)
  next
    case (EvRLock p)
    show ?thesis
      unfolding EvRLock append_Cons guarded.simps locks_after.simps by (rule Cons.IH)
  next
    case (EvRUnlock p)
    show ?thesis
      unfolding EvRUnlock append_Cons guarded.simps locks_after.simps by (rule Cons.IH)
  qed (use Cons.IH [of held] in simp_all)
qed

lemma well_locked_Nil [simp]: "well_locked []"
  by (simp add: well_locked_def)

lemma well_locked_append:
  "well_locked xs \<Longrightarrow> well_locked ys \<Longrightarrow> well_locked (xs @ ys)"
  by (simp add: well_locked_def guarded_append locks_after_append)

lemma no_lock_released [simp]: "no_lock(p := Unheld) = no_lock"
  by (simp add: no_lock_def fun_eq_iff)

lemma well_locked_write3 [simp]:
  "well_locked [EvLock p, EvWr p f1, EvWr p f2, EvWr p f3, EvUnlock p]"
  by (simp add: well_locked_def)

lemma well_locked_write2 [simp]:
  "well_locked [EvLock p, EvWr p f1, EvWr p f2, EvUnlock p]"
  by (simp add: well_locked_def)

lemma well_locked_read [simp]:
  "well_locked [EvRLock p, EvRd p f1, EvRUnlock p]"
  by (simp add: well_locked_def)

lemma well_locked_other [simp]:
  "well_locked [EvNewClient e os]" "well_locked [EvConnect c cx]" "well_locked [EvRead c cx rq]"
  "well_locked [EvPrintf f as]" "well_locked [EvLogPrintf f as]"
  "well_locked [EvTickerStop, EvWgDone]"
  by (simp_all add: well_locked_def)

lemma well_locked_Cons_other:
  "well_locked [e] \<Longrightarrow> well_locked es \<Longrightarrow> well_locked (e # es)"
  using well_locked_append [of "[e]" es] by simp

lemma connectDevice_well_locked:
  "\<exists>es. trace (snd (connectDevice lib m p d s)) = trace s @ es \<and> well_locked es"
proof -
  obtain nc w1 where nc: "NewClient lib (Endpoint d) (connectDevice_opts d) (world s) = (nc, w1)"
    by force
  show ?thesis
  proof (cases nc)
    case (Inl err)
    with nc show ?thesis
      by (simp add: connectDevice_def call_def)
  next
    case (Inr c)
    obtain cr w2 where cr: "Client_Connect lib c (ctx m) w1 = (cr, w2)"
      by force
    have wl: "well_locked ([EvNewClient (Endpoint d) (connectDevice_opts d)] @ [EvConnect c (ctx m)])"
      by (intro well_locked_append) simp_all
    have wl2: "well_locked (([EvNewClient (Endpoint d) (connectDevice_opts d)] @ [EvConnect c (ctx m)]) @
                 [EvLock p, EvWr p FClient, EvWr p FConnected, EvWr p FLastError, EvUnlock p] @
                 [EvPrintf ''device %s connected through %s to %s''
                        [AStr (Name d), AStr (LocalAddr d), AStr (Endpoint d)]])"
      by (intro well_locked_append wl) simp_all
    show ?thesis
    proof (cases cr)
      case None
      with nc Inr cr wl2 show ?thesis
        by (simp add: connectDevice_def call_def)
    next
      case (Some err)
      with nc Inr cr wl show ?thesis
        by (simp add: connectDevice_def call_def)
    qed
  qed
qed


lemma setError_well_locked:
  "\<exists>es. trace (snd (setError p d err s)) = trace s @ es \<and> well_locked es"
  by (simp add: setError_def)

lemma IsConnected_well_locked:
  "\<exists>es. trace (snd (IsConnected p d s)) = trace s @ es \<and> well_locked es"
  by (simp add: IsConnected_def)

lemma GetClient_well_locked:
  "\<exists>es. trace (snd (GetClient p d s)) = trace s @ es \<and> well_locked es"
  by (simp add: GetClient_def)

lemma healthCheck_well_locked:
  "\<exists>es. trace (snd (healthCheck lib m c name s)) = trace s @ es \<and> well_locked es"
proof -
  have wl: "well_locked ([EvRead c (ctx m) healthCheck_req] @
              [EvPrintf ''device %s health check passed'' [AStr name]])"
    by (intro well_locked_append) simp_all
  then show ?thesis
    unfolding healthCheck_def Let_def
    by (auto simp: call_def split: prod.splits sum.splits list.splits)
qed

text \<open>Two steps, each well locked, make a well-locked whole.\<close>

lemma well_locked_then:
  assumes "trace s1 = trace s @ es1" "well_locked es1"
    and "trace s2 = trace s1 @ es2" "well_locked es2"
  shows "\<exists>es. trace s2 = trace s @ es \<and> well_locked es"
  using assms by (intro exI [of _ "es1 @ es2"]) (simp add: well_locked_append)

lemma ConnectAll_body_well_locked:
  "\<exists>es. trace (snd (ConnectAll_body lib m p d s)) = trace s @ es \<and> well_locked es"
proof -
  obtain es1 where es1: "trace (snd (connectDevice lib m p d s)) = trace s @ es1" "well_locked es1"
    using connectDevice_well_locked by blast
  show ?thesis
  proof (cases "fst (fst (connectDevice lib m p d s))")
    case None
    then have "snd (ConnectAll_body lib m p d s) = snd (connectDevice lib m p d s)"
      by (cases "connectDevice lib m p d s") (auto simp: ConnectAll_body_def)
    with es1 show ?thesis by simp
  next
    case (Some err)
    then have "trace (snd (ConnectAll_body lib m p d s)) =
               trace (snd (connectDevice lib m p d s)) @
               ([EvLogPrintf ''connecting device %s failed: %v''
                   [AStr (Name (snd (fst (connectDevice lib m p d s)))), AErr err]] @
                [EvLock p, EvWr p FConnected, EvWr p FLastError, EvUnlock p])"
      by (cases "connectDevice lib m p d s") (auto simp: ConnectAll_body_def setError_def)
    moreover have "well_locked
               ([EvLogPrintf ''connecting device %s failed: %v''
                   [AStr (Name (snd (fst (connectDevice lib m p d s)))), AErr err]] @
                [EvLock p, EvWr p FConnected, EvWr p FLastError, EvUnlock p])"
      by (intro well_locked_append) simp_all
    ultimately show ?thesis
      using es1 well_locked_then by blast
  qed
qed

lemma ConnectAll_loop_well_locked:
  "\<exists>es. trace (snd (ConnectAll_loop lib m p ds s)) = trace s @ es \<and> well_locked es"
proof (induction ds arbitrary: p s)
  case Nil
  show ?case by simp
next
  case (Cons d ds)
  obtain es1 where es1: "trace (snd (ConnectAll_body lib m p d s)) = trace s @ es1" "well_locked es1"
    using ConnectAll_body_well_locked by blast
  obtain es2 where es2:
    "trace (snd (ConnectAll_loop lib m (Suc p) ds (snd (ConnectAll_body lib m p d s)))) =
     trace (snd (ConnectAll_body lib m p d s)) @ es2" "well_locked es2"
    using Cons.IH by blast
  have "snd (ConnectAll_loop lib m p (d # ds) s) =
        snd (ConnectAll_loop lib m (Suc p) ds (snd (ConnectAll_body lib m p d s)))"
    unfolding ConnectAll_loop_Cons by simp
  with es1 es2 show ?case
    using well_locked_then by metis
qed

lemma monitorDevice_tick_well_locked:
  "\<exists>es. trace (monitorDevice_tick lib m p d1 d2 s) = trace s @ es \<and> well_locked es"
proof (cases "Connected d1")
  case False
  then show ?thesis
    by (simp add: monitorDevice_tick_def IsConnected_def)
next
  case True
  show ?thesis
  proof (cases "Client d2")
    case None
    have "well_locked ([EvRLock p, EvRd p FConnected, EvRUnlock p] @
                       [EvRLock p, EvRd p FClient, EvRUnlock p])"
      by (intro well_locked_append) simp_all
    with True None show ?thesis
      by (simp add: monitorDevice_tick_def IsConnected_def GetClient_def)
  next
    case (Some c)
    let ?s2 = "emits [EvRLock p, EvRd p FClient, EvRUnlock p]
                 (emits [EvRLock p, EvRd p FConnected, EvRUnlock p] s)"
    have wl: "well_locked ([EvRLock p, EvRd p FConnected, EvRUnlock p] @
                       [EvRLock p, EvRd p FClient, EvRUnlock p])"
      by (intro well_locked_append) simp_all
    have t2: "trace ?s2 = trace s @ ([EvRLock p, EvRd p FConnected, EvRUnlock p] @
                       [EvRLock p, EvRd p FClient, EvRUnlock p])"
      by simp
    obtain es3 where es3: "trace (snd (healthCheck lib m c (Name d2) ?s2)) = trace ?s2 @ es3"
      "well_locked es3"
      using healthCheck_well_locked by blast
    show ?thesis
    proof (cases "fst (healthCheck lib m c (Name d2) ?s2)")
      case None
      then have "monitorDevice_tick lib m p d1 d2 s = snd (healthCheck lib m c (Name d2) ?s2)"
        using True Some
        by (cases "healthCheck lib m c (Name d2) ?s2")
          (simp add: monitorDevice_tick_def IsConnected_def GetClient_def)
      with well_locked_then [OF t2 wl es3] show ?thesis by simp
    next
      case err: (Some err)
      then have "trace (monitorDevice_tick lib m p d1 d2 s) =
                 trace ?s2 @ (es3 @ [EvLogPrintf ''device %s health check failed: %v''
                                       [AStr (Name d2), AErr err]])"
        using True Some es3(1)
        by (cases "healthCheck lib m c (Name d2) ?s2")
          (simp add: monitorDevice_tick_def IsConnected_def GetClient_def)
      moreover have "well_locked (es3 @ [EvLogPrintf ''device %s health check failed: %v''
                                       [AStr (Name d2), AErr err]])"
        using es3(2) by (intro well_locked_append) simp_all
      ultimately show ?thesis
        using well_locked_then [OF t2 wl] by blast
    qed
  qed
qed

lemma monitorDevice_loop_well_locked:
  "monitorDevice_loop lib m p ins s = Some (fin, s') \<Longrightarrow>
   \<exists>es. trace s' = trace s @ es \<and> well_locked es"
proof (induction ins arbitrary: m s)
  case Nil
  then show ?case by simp
next
  case (Cons i ins)
  show ?case
  proof (cases i)
    case Cancelled_by_other
    with Cons show ?thesis by simp
  next
    case Select_CtxDone
    with Cons.prems show ?thesis
      by (auto split: if_splits)
  next
    case (Select_TickerC d1 d2)
    obtain es1 where es1: "trace (monitorDevice_tick lib m p d1 d2 s) = trace s @ es1"
      "well_locked es1"
      using monitorDevice_tick_well_locked by blast
    from Cons.prems Select_TickerC
    have "monitorDevice_loop lib m p ins (monitorDevice_tick lib m p d1 d2 s) = Some (fin, s')"
      by simp
    from Cons.IH [OF this] obtain es2 where
      "trace s' = trace (monitorDevice_tick lib m p d1 d2 s) @ es2" "well_locked es2"
      by blast
    with es1 show ?thesis
      using well_locked_then by blast
  qed
qed

lemma Close_device_reads:
  "\<exists>es. trace (Close_device lib p d s) = trace s @ es
        \<and> list_all (\<lambda>e. is_Client_read e \<or> is_EvClose e) es"
  by (cases "Client d") (simp_all add: Close_device_def is_Client_read_def is_EvClose_def)

lemma Close_loop_reads:
  "\<exists>es. trace (Close_loop lib p ds s) = trace s @ es
        \<and> list_all (\<lambda>e. is_Client_read e \<or> is_EvClose e) es"
proof (induction ds arbitrary: p s)
  case Nil
  show ?case by simp
next
  case (Cons d ds)
  obtain es1 where es1: "trace (Close_device lib p d s) = trace s @ es1"
    "list_all (\<lambda>e. is_Client_read e \<or> is_EvClose e) es1"
    using Close_device_reads by blast
  obtain es2 where es2:
    "trace (Close_loop lib (Suc p) ds (Close_device lib p d s)) = trace (Close_device lib p d s) @ es2"
    "list_all (\<lambda>e. is_Client_read e \<or> is_EvClose e) es2"
    using Cons.IH by blast
  show ?case
    using es1 es2 by (intro exI [of _ "es1 @ es2"]) simp
qed


lemma example_connected_eq:
  "example_connected =
     \<lparr>devices =
        [\<lparr>Name = ''A'', Endpoint = ''opc.tcp://ab'', LocalAddr = ''192.168.100.10:0'',
          Client = Some (ClientHandle 12), Connected = True, LastError = None\<rparr>,
         \<lparr>Name = ''B'', Endpoint = ''opc.tcp://b'', LocalAddr = ''192.168.100.20:0'',
          Client = None, Connected = False,
          LastError = Some (Errorf ''connect failed: %v'' [AErr (LibError ''connection refused'')])\<rparr>],
      ctx = WithCancel, ctx_done = False, wg = 0\<rparr>"
  by (simp add: example_connected_def example_lib_def example_manager_def example_st_def
      NewMultiInterfaceManager_def AddDevice_def ConnectAll_def ConnectAll_body_def
      connectDevice_def connectDevice_opts_def setError_def call_def emit_def emits_def Let_def)

text \<open>
  C5, as stated: every read and write of \<open>Connected\<close>, \<open>LastError\<close> and
  \<open>Client\<close> is made with the mutex of the device held. It fails: \<open>Close\<close>, run on
  the two devices after \<open>ConnectAll\<close>, reads \<open>Client\<close> of each with no lock taken.
\<close>

theorem Close_reads_Client_unlocked:
  "map_option (trace \<circ> snd) (Close example_lib example_connected example_st) =
     Some [EvCancel, EvWgWait, EvRd 0 FClient, EvRd 0 FClient,
           EvClose (ClientHandle 12) Background, EvRd 1 FClient]
   \<and> \<not> guarded no_lock
         [EvCancel, EvWgWait, EvRd 0 FClient, EvRd 0 FClient,
          EvClose (ClientHandle 12) Background, EvRd 1 FClient]"
  by (simp add: example_connected_eq Close_def Close_device_def cancel_def example_lib_def
      example_st_def call_def emit_def emits_def no_lock_def Let_def)

text \<open>
  C5, amended. \<open>connectDevice\<close>, \<open>setError\<close>, \<open>IsConnected\<close>,
  \<open>GetClient\<close>, \<open>ConnectAll\<close> and \<open>monitorDevice\<close> make every write of the
  three fields under the write lock of the device and every read under its read lock.
  \<open>Close\<close> takes no lock: after \<open>m.cancel()\<close> and \<open>m.wg.Wait()\<close> have
  returned, it reads \<open>Client\<close> and calls \<open>Client.Close\<close>, and touches no other
  protected field.
\<close>

theorem accesses_under_lock_except_Close:
  "(\<exists>es. trace (snd (connectDevice lib m p d s)) = trace s @ es \<and> guarded no_lock es)
   \<and> (\<exists>es. trace (snd (setError p d err s)) = trace s @ es \<and> guarded no_lock es)
   \<and> (\<exists>es. trace (snd (IsConnected p d s)) = trace s @ es \<and> guarded no_lock es)
   \<and> (\<exists>es. trace (snd (GetClient p d s)) = trace s @ es \<and> guarded no_lock es)
   \<and> (\<exists>es. trace (snd (ConnectAll lib m s)) = trace s @ es \<and> guarded no_lock es)
   \<and> (\<forall>fin s'. monitorDevice lib m p ins s = Some (fin, s') \<longrightarrow>
         (\<exists>es. trace s' = trace s @ es \<and> guarded no_lock es))
   \<and> (\<forall>m' s'. Close lib m s = Some (m', s') \<longrightarrow>
         (\<exists>es. trace s' = trace s @ EvCancel # EvWgWait # es
               \<and> list_all (\<lambda>e. is_Client_read e \<or> is_EvClose e) es))"
proof (intro conjI allI impI)
  show "\<exists>es. trace (snd (connectDevice lib m p d s)) = trace s @ es \<and> guarded no_lock es"
    using connectDevice_well_locked [of lib m p d s] by (auto simp: well_locked_def)
  show "\<exists>es. trace (snd (setError p d err s)) = trace s @ es \<and> guarded no_lock es"
    using setError_well_locked [of p d err s] by (auto simp: well_locked_def)
  show "\<exists>es. trace (snd (IsConnected p d s)) = trace s @ es \<and> guarded no_lock es"
    using IsConnected_well_locked [of p d s] by (auto simp: well_locked_def)
  show "\<exists>es. trace (snd (GetClient p d s)) = trace s @ es \<and> guarded no_lock es"
    using GetClient_well_locked [of p d s] by (auto simp: well_locked_def)
  show "\<exists>es. trace (snd (ConnectAll lib m s)) = trace s @ es \<and> guarded no_lock es"
    using ConnectAll_loop_well_locked [of lib m 0 "devices m" s]
    by (auto simp: well_locked_def ConnectAll_def split_beta)
next
  fix fin s'
  assume "monitorDevice lib m p ins s = Some (fin, s')"
  then show "\<exists>es. trace s' = trace s @ es \<and> guarded no_lock es"
    using monitorDevice_loop_well_locked [of lib m p ins s fin s']
    by (auto simp: well_locked_def monitorDevice_def)
next
  fix m' s'
  assume "Close lib m s = Some (m', s')"
  then have s': "s' = Close_loop lib 0 (devices (cancel m)) (emit EvWgWait (emit EvCancel s))"
    by (auto simp: Close_def Let_def split: if_splits)
  obtain es where "trace s' = trace (emit EvWgWait (emit EvCancel s)) @ es"
    "list_all (\<lambda>e. is_Client_read e \<or> is_EvClose e) es"
    unfolding s' using Close_loop_reads by blast
  then show "\<exists>es. trace s' = trace s @ EvCancel # EvWgWait # es
               \<and> list_all (\<lambda>e. is_Client_read e \<or> is_EvClose e) es"
    by (intro exI [of _ es]) simp
qed

theorem accesses_under_lock_except_Close_witness:
  "guarded no_lock (trace (snd (ConnectAll example_lib example_manager example_st)))
   \<and> map_option (\<lambda>r. (fst r, guarded no_lock (trace (snd r))))
       (monitorDevice example_lib example_connected 0
          [Select_TickerC (devices example_connected ! 0) (devices example_connected ! 0),
           Cancelled_by_other, Select_CtxDone] example_st) = Some (True, True)
   \<and> map_option (trace \<circ> snd) (Close example_lib example_connected example_st) =
       Some [EvCancel, EvWgWait, EvRd 0 FClient, EvRd 0 FClient,
             EvClose (ClientHandle 12) Background, EvRd 1 FClient]"
  using accesses_under_lock_except_Close
    [of example_lib example_connected 0 "devices example_connected ! 0" example_st None
        "[Select_TickerC (devices example_connected ! 0) (devices example_connected ! 0),
          Cancelled_by_other, Select_CtxDone]"]
  by (simp add: example_connected_eq example_lib_def example_manager_def example_st_def
      NewMultiInterfaceManager_def AddDevice_def ConnectAll_def ConnectAll_body_def
      connectDevice_def connectDevice_opts_def setError_def monitorDevice_def
      monitorDevice_tick_def IsConnected_def GetClient_def healthCheck_def healthCheck_req_def
      Close_def Close_device_def cancel_def call_def emit_def emits_def no_lock_def
      StatusOK_def Let_def)

section \<open>The monitoring loop\<close>

lemma is_EvRead_locks [simp]:
  "\<not> is_EvRead (EvRLock p)" "\<not> is_EvRead (EvRUnlock p)" "\<not> is_EvRead (EvRd p fd)"
  "\<not> is_EvRead EvTickerStop" "\<not> is_EvRead EvWgDone"
  by (simp_all add: is_EvRead_def)



lemma ctx_cancel [simp]: "ctx (cancel m) = ctx m"
  by (simp add: cancel_def)

lemma ctx_done_cancel [simp]: "ctx_done (cancel m)"
  by (simp add: cancel_def)








section \<open>Shutdown\<close>

lemma unfinished_Nil [simp]: "unfinished [] = 0"
  by (simp add: unfinished_def)

lemma unfinished_append [simp]: "unfinished (xs @ ys) = unfinished xs + unfinished ys"
  by (simp add: unfinished_def)

lemma unfinished_Cons [simp]:
  "unfinished (g # gs) = (if snd g \<noteq> Finished then 1 else 0) + unfinished gs"
  by (simp add: unfinished_def)




lemma is_EvClose_simps [simp]:
  "is_EvClose (EvClose c cx)" "\<not> is_EvClose (EvRd p fd)"
  by (simp_all add: is_EvClose_def)



lemma wg_cancel [simp]: "wg (cancel m) = wg m"
  by (simp add: cancel_def)

lemma devices_cancel [simp]: "devices (cancel m) = devices m"
  by (simp add: cancel_def)

lemma is_shutdown_event_simps [simp]:
  "is_shutdown_event EvCancel" "is_shutdown_event EvWgWait" "is_shutdown_event (EvClose c cx)"
  "\<not> is_shutdown_event (EvRLock p)" "\<not> is_shutdown_event (EvRUnlock p)"
  "\<not> is_shutdown_event (EvRd p fd)" "\<not> is_shutdown_event (EvRead c cx rq)"
  "\<not> is_shutdown_event (EvPrintf f as)" "\<not> is_shutdown_event (EvLogPrintf f as)"
  "\<not> is_shutdown_event EvTickerStop" "\<not> is_shutdown_event EvWgDone"
  "\<not> is_shutdown_event EvWgAdd" "\<not> is_shutdown_event (EvGo p)"
  by (simp_all add: is_shutdown_event_def)


















lemma work_Nil [simp]: "work [] = 0"
  by (simp add: work_def)

lemma work_append [simp]: "work (xs @ ys) = work xs + work ys"
  by (simp add: work_def)

lemma work_Cons [simp]: "work (g # gs) = steps_left (snd g) + work gs"
  by (simp add: work_def)


lemma steps_left_zero: "(steps_left status = 0) = (status = Finished)"
  by (cases status) simp_all
















end
